theory Spec2Isabelle
  imports Main
begin

section \<open>Strings as the two scripts use them\<close>

text \<open>
  A Python \<open>str\<close> is modelled as a HOL \<open>string\<close>; a \<open>char\<close> stands for a code
  point below 256. A path is the tuple \<open>Path(p).parts\<close>.
\<close>

type_synonym path = "string list"

definition NL :: char where
  "NL = CHR 0x0A"

text \<open>
  \<open>str.isspace\<close>, which is also the class \<open>\s\<close> of a \<open>str\<close> pattern: on the code
  points below 256 these are 0x09-0x0D, 0x1C-0x1F, 0x20, 0x85 and 0xA0.
\<close>

definition isspace :: "char \<Rightarrow> bool" where
  "isspace c = (c \<in> set [CHR 0x09, CHR 0x0A, CHR 0x0B, CHR 0x0C, CHR 0x0D,
                            CHR 0x1C, CHR 0x1D, CHR 0x1E, CHR 0x1F, CHR 0x20,
                            CHR 0x85, CHR 0xA0])"

text \<open>The class \<open>\d\<close>: below 256 the decimal digits are \<open>0\<close> to \<open>9\<close>.\<close>

definition isdigit :: "char \<Rightarrow> bool" where
  "isdigit c = (c \<in> set ''0123456789'')"

text \<open>The class \<open>[\*\-\+]\<close> of the bullet pattern.\<close>

definition isbullet :: "char \<Rightarrow> bool" where
  "isbullet c = (c \<in> set ''*-+'')"

text \<open>The class \<open>[\*\-_]\<close> of the horizontal-rule pattern.\<close>

definition isrule :: "char \<Rightarrow> bool" where
  "isrule c = (c \<in> set ''*-_'')"

text \<open>\<open>s.strip()\<close>: whitespace removed at both ends.\<close>

definition strip :: "string \<Rightarrow> string" where
  "strip s = rev (dropWhile isspace (rev (dropWhile isspace s)))"

text \<open>\<open>s.startswith(p)\<close> and \<open>s.endswith(p)\<close>.\<close>

definition startswith :: "string \<Rightarrow> string \<Rightarrow> bool" where
  "startswith s p = (take (length p) s = p)"

definition endswith :: "string \<Rightarrow> string \<Rightarrow> bool" where
  "endswith s p = (length p \<le> length s \<and> drop (length s - length p) s = p)"

text \<open>
  \<open>s.split('\n')\<close>: the pieces between the newlines, one more than there are
  newlines, so never an empty list.
\<close>

fun split_lines :: "string \<Rightarrow> string list" where
  "split_lines [] = [[]]"
| "split_lines (c # cs) =
     (if c = NL then [] # split_lines cs
      else (c # hd (split_lines cs)) # tl (split_lines cs))"

text \<open>\<open>'\n'.join(ls)\<close>.\<close>

fun join_lines :: "string list \<Rightarrow> string" where
  "join_lines [] = []"
| "join_lines [l] = l"
| "join_lines (l # ls) = l @ NL # join_lines ls"

section \<open>The three line patterns\<close>

text \<open>
  Both scripts test a line with \<open>re.match\<close> against the same three patterns. A line
  is a piece of \<open>split('\n')\<close> and holds no newline, so \<open>.\<close> matches every character
  of it and \<open>$\<close> only its end; the matchers below are the patterns on such lines.

  The tail \<open>\s+(.+)$\<close>, common to the three: \<open>\s+\<close> is greedy and takes the whole run
  of whitespace, and \<open>(.+)\<close> the rest. When nothing follows the whitespace, \<open>\s+\<close>
  gives its last character back to \<open>(.+)\<close>, which needs the run to have two
  characters.
\<close>

definition sep_text :: "string \<Rightarrow> string option" where
  "sep_text s =
     (let ws = takeWhile isspace s; r = dropWhile isspace s in
      if ws = [] then None
      else if r \<noteq> [] then Some r
      else if 2 \<le> length ws then Some [last ws]
      else None)"

text \<open>
  \<open>^(#{1,6})\s+(.+)$\<close>: the run of \<open>#\<close> at the start has 1 to 6 characters (a
  seventh \<open>#\<close> is no whitespace, and no shorter group helps). The result is
  \<open>(len(group(1)), group(2))\<close>.
\<close>

definition heading_match :: "string \<Rightarrow> (nat \<times> string) option" where
  "heading_match line =
     (let k = length (takeWhile (\<lambda>c. c = CHR ''#'') line) in
      if 1 \<le> k \<and> k \<le> 6 then
        (case sep_text (drop k line) of
           None \<Rightarrow> None
         | Some t \<Rightarrow> Some (k, t))
      else None)"

text \<open>
  \<open>^(\s*)(\d+)\.\s+(.+)$\<close>: the leading whitespace, all the digits that follow
  (at least one), a period, then the common tail. The result is
  \<open>(len(group(1)), group(2), group(3))\<close>.
\<close>

definition numbered_match :: "string \<Rightarrow> (nat \<times> string \<times> string) option" where
  "numbered_match line =
     (let ind = takeWhile isspace line; r = dropWhile isspace line;
          num = takeWhile isdigit r; r' = dropWhile isdigit r in
      if num = [] then None
      else (case r' of
              [] \<Rightarrow> None
            | c # r'' \<Rightarrow>
                if c = CHR ''.'' then
                  (case sep_text r'' of
                     None \<Rightarrow> None
                   | Some t \<Rightarrow> Some (length ind, num, t))
                else None))"

text \<open>
  \<open>^(\s*)([\*\-\+])\s+(.+)$\<close>: the leading whitespace, one bullet character,
  then the common tail. The result is \<open>(len(group(1)), group(2), group(3))\<close>.
\<close>

definition bullet_match :: "string \<Rightarrow> (nat \<times> char \<times> string) option" where
  "bullet_match line =
     (let ind = takeWhile isspace line; r = dropWhile isspace line in
      case r of
        [] \<Rightarrow> None
      | b # r' \<Rightarrow>
          if isbullet b then
            (case sep_text r' of
               None \<Rightarrow> None
             | Some t \<Rightarrow> Some (length ind, b, t))
          else None)"

section \<open>Fix mode: \<open>parse_line\<close> of \<open>sync_fix.py\<close>\<close>

text \<open>
  The dictionary \<open>parse_line\<close> returns, by its \<open>'type'\<close>: a constructor per type,
  with the keys that type has.
\<close>

datatype item =
    Heading (level: nat) (itext: string) (original: string)
  | NumberedList (indent: nat) (number: string) (itext: string) (original: string)
  | BulletList (indent: nat) (bullet: char) (itext: string) (original: string)
  | Other (original: string)

datatype item_type = heading | numbered_list | bullet_list | other

fun type_of :: "item \<Rightarrow> item_type" where
  "type_of (Heading l t orig) = heading"
| "type_of (NumberedList i n t orig) = numbered_list"
| "type_of (BulletList i b t orig) = bullet_list"
| "type_of (Other orig) = other"

definition parse_line :: "string \<Rightarrow> item" where
  "parse_line line =
     (case heading_match line of
        Some (k, t) \<Rightarrow> Heading k t line
      | None \<Rightarrow>
     (case numbered_match line of
        Some (i, n, t) \<Rightarrow> NumberedList i n t line
      | None \<Rightarrow>
     (case bullet_match line of
        Some (i, b, t) \<Rightarrow> BulletList i b t line
      | None \<Rightarrow> Other line)))"

section \<open>Report mode: \<open>analyze_structure\<close> of \<open>sync_translations.py\<close>\<close>

text \<open>
  The dictionaries \<open>analyze_structure\<close> appends, by their \<open>'type'\<close>; \<open>eline\<close> is the
  index of the line and \<open>econtent\<close> the line itself.
\<close>

datatype element =
    EHeading (eline: nat) (elevel: nat) (etext: string) (econtent: string)
  | ENumberedList (eline: nat) (eindent: nat) (enumber: string) (etext: string)
      (econtent: string)
  | EBulletList (eline: nat) (eindent: nat) (ebullet: char) (etext: string)
      (econtent: string)
  | CodeBlockStart (eline: nat) (econtent: string) (elang: string)
  | CodeBlockEnd (eline: nat) (econtent: string)
  | CodeBlockContent (eline: nat) (econtent: string)
  | Import (eline: nat) (econtent: string)
  | Hr (eline: nat) (econtent: string)
  | Text (eline: nat) (econtent: string)

text \<open>\<open>re.match(r'^[\*\-_]{3,}$', s)\<close> on a stripped line \<open>s\<close>.\<close>

definition hr_match :: "string \<Rightarrow> bool" where
  "hr_match s = (3 \<le> length s \<and> list_all isrule s)"

text \<open>The body of the loop for a line outside a code block that is no fence.\<close>

definition classify :: "nat \<Rightarrow> string \<Rightarrow> element" where
  "classify i line =
     (case heading_match line of
        Some (k, t) \<Rightarrow> EHeading i k t line
      | None \<Rightarrow>
     (case numbered_match line of
        Some (ind, n, t) \<Rightarrow> ENumberedList i ind n t line
      | None \<Rightarrow>
     (case bullet_match line of
        Some (ind, b, t) \<Rightarrow> EBulletList i ind b t line
      | None \<Rightarrow>
          if startswith (strip line) ''import '' then Import i line
          else if hr_match (strip line) then Hr i line
          else Text i line)))"

text \<open>The fence marker: three characters 0x60.\<close>

definition FENCE :: string where
  "FENCE = [CHR 0x60, CHR 0x60, CHR 0x60]"

text \<open>The test \<open>line.strip().startswith(FENCE)\<close>.\<close>

definition is_fence :: "string \<Rightarrow> bool" where
  "is_fence line = startswith (strip line) FENCE"

text \<open>
  The loop \<open>for i, line in enumerate(lines)\<close>, from index \<open>i\<close> with the flag
  \<open>in_code_block\<close>: the elements appended for the lines that remain.
\<close>

fun analyze_lines :: "nat \<Rightarrow> bool \<Rightarrow> string list \<Rightarrow> element list" where
  "analyze_lines i in_code_block [] = []"
| "analyze_lines i in_code_block (line # ls) =
     (if is_fence line then
        (if \<not> in_code_block then
           CodeBlockStart i line (strip (drop 3 (strip line)))
             # analyze_lines (Suc i) True ls
         else CodeBlockEnd i line # analyze_lines (Suc i) False ls)
      else if in_code_block then
        CodeBlockContent i line # analyze_lines (Suc i) in_code_block ls
      else classify i line # analyze_lines (Suc i) in_code_block ls)"

definition analyze_structure :: "string \<Rightarrow> element list" where
  "analyze_structure body = analyze_lines 0 False (split_lines body)"

section \<open>Front matter: \<open>extract_frontmatter\<close> (the same in both scripts)\<close>

text \<open>
  The loop \<open>for i in range(1, len(lines))\<close>, at index \<open>i\<close> with the lines from
  \<open>i\<close> on, the \<open>frontmatter_lines\<close> so far and \<open>body_start\<close>: it returns both when
  it breaks at a closing delimiter or runs out of lines.
\<close>

fun scan_frontmatter ::
  "nat \<Rightarrow> string list \<Rightarrow> string list \<Rightarrow> nat \<Rightarrow> string list \<times> nat" where
  "scan_frontmatter i [] frontmatter_lines body_start = (frontmatter_lines, body_start)"
| "scan_frontmatter i (l # ls) frontmatter_lines body_start =
     (if strip l = ''---'' then (frontmatter_lines @ [''---''], i + 1)
      else scan_frontmatter (i + 1) ls (frontmatter_lines @ [l]) body_start)"

text \<open>
  \<open>lines\<close> is never empty, so \<open>not lines\<close> is false and \<open>lines[0]\<close> is its head.
\<close>

definition extract_frontmatter :: "string \<Rightarrow> string \<times> string" where
  "extract_frontmatter content =
     (let lines = split_lines content in
      if strip (hd lines) \<noteq> ''---'' then ([], content)
      else (case scan_frontmatter 1 (tl lines) [''---''] 1 of
              (frontmatter_lines, body_start) \<Rightarrow>
                (join_lines frontmatter_lines, join_lines (drop body_start lines))))"

section \<open>Fix mode: the alignment loops of \<open>sync_file\<close>\<close>

text \<open>What the scripts print, one constructor per message.\<close>

datatype console =
    FixHeading nat nat
      \<comment> \<open>\<open>[FIX] Heading level: H{en level} -> H{id level}\<close>\<close>
  | Skip string
      \<comment> \<open>\<open>[SKIP] EN file not found: {en_file.name}\<close>\<close>
  | Updated string string
      \<comment> \<open>\<open>[UPDATED] {en_file.name} (backup: {backup_path.name})\<close>\<close>
  | DryRun string
      \<comment> \<open>\<open>[DRY-RUN] Would update {en_file.name}\<close>\<close>
  | File path
      \<comment> \<open>\<open>[FILE] {rel_path}\<close>\<close>
  | NoChanges
      \<comment> \<open>\<open>[OK] No changes needed\<close>\<close>

text \<open>The variables of the loops, and what has been printed.\<close>

record sync_state =
  id_idx :: nat
  en_idx :: nat
  new_en_lines :: "string list"
  changes_made :: bool
  printed :: "console list"

text \<open>
  One pass through the body of \<open>while id_idx < len(id_parsed) and en_idx <
  len(en_parsed)\<close>, under that condition.
\<close>

definition sync_step :: "item list \<Rightarrow> item list \<Rightarrow> sync_state \<Rightarrow> sync_state" where
  "sync_step id_parsed en_parsed s =
     (let id_item = id_parsed ! id_idx s; en_item = en_parsed ! en_idx s in
      if type_of id_item = heading \<and> type_of en_item = heading then
        (if level id_item \<noteq> level en_item then
           s\<lparr>new_en_lines := new_en_lines s
                  @ [replicate (level id_item) (CHR ''#'') @ '' '' @ itext en_item],
             changes_made := True,
             printed := printed s @ [FixHeading (level en_item) (level id_item)],
             id_idx := id_idx s + 1, en_idx := en_idx s + 1\<rparr>
         else
           s\<lparr>new_en_lines := new_en_lines s @ [original en_item],
             id_idx := id_idx s + 1, en_idx := en_idx s + 1\<rparr>)
      else if type_of id_item = numbered_list \<and> type_of en_item = numbered_list then
        (if indent id_item \<noteq> indent en_item then
           s\<lparr>new_en_lines := new_en_lines s
                  @ [replicate (indent id_item) (CHR '' '') @ number en_item
                       @ ''. '' @ itext en_item],
             changes_made := True,
             id_idx := id_idx s + 1, en_idx := en_idx s + 1\<rparr>
         else
           s\<lparr>new_en_lines := new_en_lines s @ [original en_item],
             id_idx := id_idx s + 1, en_idx := en_idx s + 1\<rparr>)
      else if type_of id_item = bullet_list \<and> type_of en_item = bullet_list then
        (if indent id_item \<noteq> indent en_item then
           s\<lparr>new_en_lines := new_en_lines s
                  @ [replicate (indent id_item) (CHR '' '') @ [bullet en_item]
                       @ '' '' @ itext en_item],
             changes_made := True,
             id_idx := id_idx s + 1, en_idx := en_idx s + 1\<rparr>
         else
           s\<lparr>new_en_lines := new_en_lines s @ [original en_item],
             id_idx := id_idx s + 1, en_idx := en_idx s + 1\<rparr>)
      else
        s\<lparr>new_en_lines := new_en_lines s @ [original en_item],
          id_idx := (if type_of id_item = type_of en_item then id_idx s + 1
                     else id_idx s),
          en_idx := en_idx s + 1\<rparr>)"

function sync_loop :: "item list \<Rightarrow> item list \<Rightarrow> sync_state \<Rightarrow> sync_state" where
  "sync_loop id_parsed en_parsed s =
     (if id_idx s < length id_parsed \<and> en_idx s < length en_parsed
      then sync_loop id_parsed en_parsed (sync_step id_parsed en_parsed s)
      else s)"
  by pat_completeness auto
termination
  by (relation "measure (\<lambda>(id_parsed, en_parsed, s). length en_parsed - en_idx s)")
     (auto simp: sync_step_def Let_def)

text \<open>The loop \<open>while en_idx < len(en_parsed)\<close> that adds the remaining lines.\<close>

function copy_rest :: "item list \<Rightarrow> sync_state \<Rightarrow> sync_state" where
  "copy_rest en_parsed s =
     (if en_idx s < length en_parsed
      then copy_rest en_parsed
             (s\<lparr>new_en_lines := new_en_lines s @ [original (en_parsed ! en_idx s)],
                en_idx := en_idx s + 1\<rparr>)
      else s)"
  by pat_completeness auto
termination
  by (relation "measure (\<lambda>(en_parsed, s). length en_parsed - en_idx s)") auto

declare sync_loop.simps [simp del] copy_rest.simps [simp del]

definition init_state :: sync_state where
  "init_state = \<lparr>id_idx = 0, en_idx = 0, new_en_lines = [], changes_made = False,
                  printed = []\<rparr>"

text \<open>Both loops, from \<open>id_idx = 0\<close>, \<open>en_idx = 0\<close>, over two parsed bodies.\<close>

definition sync_lines :: "item list \<Rightarrow> item list \<Rightarrow> sync_state" where
  "sync_lines id_parsed en_parsed =
     copy_rest en_parsed (sync_loop id_parsed en_parsed init_state)"

text \<open>The parsed body of a file's content, as \<open>sync_file\<close> computes it.\<close>

definition parse_body :: "string \<Rightarrow> item list" where
  "parse_body body = map parse_line (split_lines body)"

section \<open>The path mapper: \<open>get_en_path\<close>\<close>

text \<open>
  The dictionary \<open>PATH_MAPPING\<close> of each script, as its list of items; no key occurs
  twice. The table of \<open>sync_fix.py\<close> has two keys more.
\<close>

definition PATH_MAPPING_translations_items :: "(string \<times> string) list" where
  "PATH_MAPPING_translations_items =
    [(''menu-siswa'', ''student-menu''),
     (''menu-wali'', ''guardian-menu''),
     (''penyelesaian-masalah'', ''troubleshooting''),
     (''pengenalan'', ''introduction''),
     (''kebijakan-dan-keamanan'', ''policies-and-security''),
     (''panduan-pengguna-baru'', ''new-user-guide''),
     (''ujian'', ''exams''),
     (''tugas'', ''assignments''),
     (''nilai-ujian'', ''exam-results''),
     (''biaya'', ''fees''),
     (''laporan'', ''reports''),
     (''ujian-online'', ''online-exams''),
     (''ujian-offline'', ''offline-exams''),
     (''ditugaskan'', ''assigned''),
     (''dikumpulkan'', ''submitted''),
     (''penugasan'', ''assigned''),
     (''pengumpulan-tugas'', ''submission''),
     (''tagihan'', ''bill-list''),
     (''riwayat'', ''payment-history''),
     (''ujian-daring'', ''online-exams''),
     (''kehadiran-siswa'', ''student-attendance''),
     (''kehadiran-anak'', ''child-attendance''),
     (''jadwal-pelajaran-harian'', ''daily-class-schedule''),
     (''jadwal-pelajaran-anak'', ''child-class-schedule''),
     (''absen-mapel'', ''subject-attendance''),
     (''ekstrakurikuler'', ''extracurricular''),
     (''galeri'', ''gallery''),
     (''hari-libur'', ''holidays''),
     (''pengumuman'', ''announcements''),
     (''profile-siswa'', ''student-profile''),
     (''detail-wali'', ''guardian-details''),
     (''guru'', ''teachers''),
     (''mengajukan-izin-kehadiran'', ''submit-attendance-permit''),
     (''pengerjaan-ujian-online'', ''taking-online-exams''),
     (''hubungi-kami'', ''contact-us''),
     (''keamanan'', ''security''),
     (''kebijakan-privasi'', ''privacy-policy''),
     (''syarat-dan-ketentuan-layanan'', ''terms-of-service''),
     (''tentang-kami'', ''about-us''),
     (''lupa-password'', ''forgot-password''),
     (''masalah-user-tidak-bisa-login'', ''user-cannot-login''),
     (''tampilan-eschool-mobile'', ''eschool-mobile-interface''),
     (''gambaran-umum'', ''overview''),
     (''login'', ''login'')]"

definition PATH_MAPPING_fix_items :: "(string \<times> string) list" where
  "PATH_MAPPING_fix_items =
    [(''menu-siswa'', ''student-menu''),
     (''menu-wali'', ''guardian-menu''),
     (''penyelesaian-masalah'', ''troubleshooting''),
     (''pengenalan'', ''introduction''),
     (''kebijakan-dan-keamanan'', ''policies-and-security''),
     (''panduan-pengguna-baru'', ''new-user-guide''),
     (''pengaturan-personal'', ''personal-settings''),
     (''ujian'', ''exams''),
     (''tugas'', ''assignments''),
     (''nilai-ujian'', ''exam-results''),
     (''biaya'', ''fees''),
     (''laporan'', ''reports''),
     (''ujian-online'', ''online-exams''),
     (''ujian-offline'', ''offline-exams''),
     (''ditugaskan'', ''assigned''),
     (''dikumpulkan'', ''submitted''),
     (''penugasan'', ''assigned''),
     (''pengumpulan-tugas'', ''submission''),
     (''tagihan'', ''bill-list''),
     (''riwayat'', ''payment-history''),
     (''ujian-daring'', ''online-exams''),
     (''kehadiran-siswa'', ''student-attendance''),
     (''kehadiran-anak'', ''child-attendance''),
     (''jadwal-pelajaran-harian'', ''daily-class-schedule''),
     (''jadwal-pelajaran-anak'', ''child-class-schedule''),
     (''absen-mapel'', ''subject-attendance''),
     (''ekstrakurikuler'', ''extracurricular''),
     (''galeri'', ''gallery''),
     (''hari-libur'', ''holidays''),
     (''pengumuman'', ''announcements''),
     (''profile-siswa'', ''student-profile''),
     (''detail-wali'', ''guardian-details''),
     (''guru'', ''teachers''),
     (''mengajukan-izin-kehadiran'', ''submit-attendance-permit''),
     (''pengerjaan-ujian-online'', ''taking-online-exams''),
     (''hubungi-kami'', ''contact-us''),
     (''keamanan'', ''security''),
     (''kebijakan-privasi'', ''privacy-policy''),
     (''syarat-dan-ketentuan-layanan'', ''terms-of-service''),
     (''tentang-kami'', ''about-us''),
     (''lupa-password'', ''forgot-password''),
     (''masalah-user-tidak-bisa-login'', ''user-cannot-login''),
     (''tampilan-eschool-mobile'', ''eschool-mobile-interface''),
     (''gambaran-umum'', ''overview''),
     (''login'', ''login''),
     (''ubah-password'', ''change-password'')]"

definition PATH_MAPPING_translations :: "string \<rightharpoonup> string" where
  "PATH_MAPPING_translations = map_of PATH_MAPPING_translations_items"

definition PATH_MAPPING_fix :: "string \<rightharpoonup> string" where
  "PATH_MAPPING_fix = map_of PATH_MAPPING_fix_items"

text \<open>
  \<open>part.replace('.mdx', '')\<close>: every occurrence of \<open>.mdx\<close> is taken out, from left to
  right, and what was taken out is not looked at again.
\<close>

fun replace_mdx :: "string \<Rightarrow> string" where
  "replace_mdx [] = []"
| "replace_mdx (c # cs) =
     (if startswith (c # cs) ''.mdx'' then replace_mdx (drop 3 cs)
      else c # replace_mdx cs)"

text \<open>The body of \<open>for part in parts\<close>: the part appended to \<open>en_parts\<close>.\<close>

definition map_part :: "(string \<rightharpoonup> string) \<Rightarrow> string \<Rightarrow> string" where
  "map_part mapping part =
     (let part_name = replace_mdx part in
      case mapping part_name of
        Some en_part \<Rightarrow> (if endswith part ''.mdx'' then en_part @ ''.mdx'' else en_part)
      | None \<Rightarrow> part)"

text \<open>
  \<open>get_en_path\<close> on the parts of the path; the two scripts have the same function
  over their own table, which is the first argument here.
\<close>

definition get_en_path :: "(string \<rightharpoonup> string) \<Rightarrow> path \<Rightarrow> path" where
  "get_en_path mapping parts = map (map_part mapping) parts"

section \<open>Files\<close>

text \<open>
  The file system: the content of each file that exists. \<open>read_text\<close> of a file that
  does not exist raises \<open>FileNotFoundError\<close>; \<open>relative_to\<close> of a path outside the
  directory and \<open>with_suffix\<close> of a path with no name raise \<open>ValueError\<close>.
\<close>

type_synonym fs = "path \<rightharpoonup> string"

datatype error = FileNotFoundError | ValueError


text \<open>\<open>p.name\<close>: the last part, or the empty string.\<close>

definition name :: "path \<Rightarrow> string" where
  "name p = (if p = [] then [] else last p)"

text \<open>
  \<open>p.suffix\<close> of a name: from its last period on, when that period is neither the
  first nor the last character.
\<close>

definition suffix_of :: "string \<Rightarrow> string" where
  "suffix_of n =
     (if CHR ''.'' \<in> set n then
        (let i = length n - 1 - length (takeWhile (\<lambda>c. c \<noteq> CHR ''.'') (rev n)) in
         if 0 < i \<and> i < length n - 1 then drop i n else [])
      else [])"

definition with_suffix :: "path \<Rightarrow> string \<Rightarrow> error + path" where
  "with_suffix p suffix =
     (if name p = [] then Inl ValueError
      else Inr (butlast p
                @ [take (length (name p) - length (suffix_of (name p))) (name p) @ suffix]))"

section \<open>Fix mode: \<open>sync_file\<close> and the loop of \<open>main\<close>\<close>

text \<open>
  \<open>sync_file\<close> returns its boolean; the file system after it and what it printed
  are returned with it.
\<close>

definition sync_file ::
  "fs \<Rightarrow> path \<Rightarrow> path \<Rightarrow> bool \<Rightarrow> error + (bool \<times> fs \<times> console list)" where
  "sync_file files id_file en_file dry_run =
     (case files en_file of
        None \<Rightarrow> Inr (False, files, [Skip (name en_file)])
      | Some en_content \<Rightarrow>
     (case files id_file of
        None \<Rightarrow> Inl FileNotFoundError
      | Some id_content \<Rightarrow>
          (let (id_fm, id_body) = extract_frontmatter id_content;
               (en_fm, en_body) = extract_frontmatter en_content;
               id_parsed = map parse_line (split_lines id_body);
               en_parsed = map parse_line (split_lines en_body);
               s = sync_lines id_parsed en_parsed
           in
           if changes_made s then
             (let new_content = en_fm @ [NL] @ join_lines (new_en_lines s) in
              if \<not> dry_run then
                (case with_suffix en_file ''.mdx.bak'' of
                   Inl e \<Rightarrow> Inl e
                 | Inr backup_path \<Rightarrow>
                     Inr (True,
                          (files(backup_path \<mapsto> en_content))(en_file \<mapsto> new_content),
                          printed s @ [Updated (name en_file) (name backup_path)]))
              else Inr (True, files, printed s @ [DryRun (name en_file)]))
           else Inr (False, files, printed s))))"



section \<open>Report mode: \<open>generate_report\<close> and the loop of \<open>main\<close>\<close>


fun is_heading :: "element \<Rightarrow> bool" where
  "is_heading (EHeading i k t c) = True"
| "is_heading e = False"

fun is_list :: "element \<Rightarrow> bool" where
  "is_list (ENumberedList i ind n t c) = True"
| "is_list (EBulletList i ind b t c) = True"
| "is_list e = False"







section \<open>Notions the properties are stated with\<close>

text \<open>
  The traversal as the specification words it: both cursors start at the front; a
  pair of records of the same kind heading, ordered item or unordered item is a
  matched pair and both cursors advance; two records of the same other kind advance
  both cursors; otherwise the target cursor advances alone. \<open>matched_pairs\<close> lists
  the matched pairs in the order they are met.
\<close>

fun matched_pairs :: "item list \<Rightarrow> item list \<Rightarrow> (item \<times> item) list" where
  "matched_pairs [] ts = []"
| "matched_pairs (S # ss) [] = []"
| "matched_pairs (S # ss) (T # ts) =
     (if type_of S = type_of T \<and> type_of S \<noteq> other then (S, T) # matched_pairs ss ts
      else if type_of S = type_of T then matched_pairs ss ts
      else matched_pairs (S # ss) ts)"

text \<open>
  A matched pair agrees when the levels are equal (headings) or the indentations are
  equal (list items). \<open>aligned\<close> is over the records of fix mode, whose parser
  has no fence kinds.
\<close>

fun agrees :: "item \<times> item \<Rightarrow> bool" where
  "agrees (S, T) = (if type_of S = heading then level S = level T
                    else indent S = indent T)"

definition aligned :: "item list \<Rightarrow> item list \<Rightarrow> bool" where
  "aligned id_parsed en_parsed = list_all agrees (matched_pairs id_parsed en_parsed)"

text \<open>
  What a record holds besides its level or indentation and the raw line: its kind,
  its number token or bullet glyph, and its text (for a line of kind \<open>other\<close>, the
  line).
\<close>

fun frame :: "item \<Rightarrow> item_type \<times> string \<times> string" where
  "frame (Heading k t orig) = (heading, [], t)"
| "frame (NumberedList i n t orig) = (numbered_list, n, t)"
| "frame (BulletList i b t orig) = (bullet_list, [b], t)"
| "frame (Other orig) = (other, [], orig)"



text \<open>The flag \<open>in_code_block\<close> of \<open>analyze_structure\<close> after some lines.\<close>

fun flag_after :: "bool \<Rightarrow> string list \<Rightarrow> bool" where
  "flag_after b [] = b"
| "flag_after b (l # ls) = flag_after (if is_fence l then \<not> b else b) ls"

text \<open>
  The stem of a path segment as the specification words it: the segment with the
  extension \<open>.mdx\<close> removed when it ends with it.
\<close>

definition stem_mdx :: "string \<Rightarrow> string" where
  "stem_mdx part = (if endswith part ''.mdx'' then take (length part - 4) part else part)"


section \<open>Parsing keeps the lines\<close>

lemma classify_fields: "econtent (classify i l) = l \<and> eline (classify i l) = i"
  by (simp add: classify_def split: option.splits prod.splits)

lemma analyze_lines_content: "map econtent (analyze_lines i b ls) = ls"
  by (induction ls arbitrary: i b) (simp_all add: classify_fields)

lemma analyze_lines_index: "map eline (analyze_lines i b ls) = [i..<i + length ls]"
  by (induction ls arbitrary: i b) (simp_all add: classify_fields upt_rec)

lemma parse_line_original: "original (parse_line l) = l"
  by (simp add: parse_line_def split: option.splits prod.splits)

text \<open>
  Claim C1. Both parsers are total functions, and on a body of N lines each returns N
  records in the order of the lines: the record at position \<open>i\<close> of
  \<open>analyze_structure\<close> carries the line \<open>i\<close> of the body and the index \<open>i\<close>, and the
  record at position \<open>i\<close> of the fix-mode parse carries the line \<open>i\<close> as its
  original.
\<close>

theorem parsing_total_length_preserving:
  "length (analyze_structure body) = length (split_lines body)
   \<and> map econtent (analyze_structure body) = split_lines body
   \<and> map eline (analyze_structure body) = [0..<length (split_lines body)]
   \<and> length (parse_body body) = length (split_lines body)
   \<and> map original (parse_body body) = split_lines body"
proof -
  have c: "map econtent (analyze_structure body) = split_lines body"
    by (simp add: analyze_structure_def analyze_lines_content)
  have "length (map econtent (analyze_structure body)) = length (split_lines body)"
    by (simp only: c)
  then have n: "length (analyze_structure body) = length (split_lines body)"
    by simp
  have i: "map eline (analyze_structure body) = [0..<length (split_lines body)]"
    by (simp add: analyze_structure_def analyze_lines_index)
  have o: "map original (parse_body body) = split_lines body"
    by (simp add: parse_body_def parse_line_original map_idI)
  from c n i o show ?thesis by (simp add: parse_body_def)
qed

section \<open>The alignment loops\<close>

lemma sync_step_en_idx: "en_idx (sync_step ip ep s) = en_idx s + 1"
  by (simp add: sync_step_def Let_def)

lemma sync_step_length:
  "length (new_en_lines (sync_step ip ep s)) = length (new_en_lines s) + 1"
  by (simp add: sync_step_def Let_def)

lemma sync_loop_continue:
  "id_idx s < length ip \<Longrightarrow> en_idx s < length ep \<Longrightarrow>
   sync_loop ip ep s = sync_loop ip ep (sync_step ip ep s)"
  by (subst sync_loop.simps) simp

lemma sync_loop_stop:
  "\<not> (id_idx s < length ip \<and> en_idx s < length ep) \<Longrightarrow> sync_loop ip ep s = s"
  by (subst sync_loop.simps) auto

lemma copy_rest_eq:
  "copy_rest ep s =
     (if en_idx s < length ep
      then s\<lparr>new_en_lines := new_en_lines s @ map original (drop (en_idx s) ep),
             en_idx := length ep\<rparr>
      else s)"
proof (induction ep s rule: copy_rest.induct)
  case (1 ep s)
  show ?case
  proof (cases "en_idx s < length ep")
    case True
    have d: "drop (en_idx s) ep = ep ! en_idx s # drop (Suc (en_idx s)) ep"
      using True by (simp add: Cons_nth_drop_Suc)
    show ?thesis
      using 1[OF True] True
      by (subst copy_rest.simps) (auto simp: d not_less dest: le_antisym)
  next
    case False
    then show ?thesis by (subst copy_rest.simps) simp
  qed
qed

lemma copy_rest_lines:
  "new_en_lines (copy_rest ep s) = new_en_lines s @ map original (drop (en_idx s) ep)"
  by (simp add: copy_rest_eq)

lemma sync_loop_inv:
  "en_idx s \<le> length ep \<Longrightarrow> length (new_en_lines s) = en_idx s \<Longrightarrow>
   en_idx (sync_loop ip ep s) \<le> length ep
   \<and> length (new_en_lines (sync_loop ip ep s)) = en_idx (sync_loop ip ep s)"
proof (induction ip ep s rule: sync_loop.induct)
  case (1 ip ep s)
  show ?case
  proof (cases "id_idx s < length ip \<and> en_idx s < length ep")
    case True
    have a: "en_idx (sync_step ip ep s) \<le> length ep"
      using True by (simp add: sync_step_en_idx)
    have b: "length (new_en_lines (sync_step ip ep s)) = en_idx (sync_step ip ep s)"
      using 1(3) by (simp add: sync_step_en_idx sync_step_length)
    have e: "sync_loop ip ep s = sync_loop ip ep (sync_step ip ep s)"
      using True by (simp add: sync_loop_continue)
    show ?thesis using 1(1)[OF True a b] by (simp only: e)
  next
    case False
    have e: "sync_loop ip ep s = s"
      using False by (rule sync_loop_stop)
    show ?thesis using 1(2,3) by (simp only: e)
  qed
qed

lemma sync_lines_length: "length (new_en_lines (sync_lines ip ep)) = length ep"
proof -
  let ?s = "sync_loop ip ep init_state"
  have "en_idx ?s \<le> length ep \<and> length (new_en_lines ?s) = en_idx ?s"
    by (rule sync_loop_inv) (simp_all add: init_state_def)
  then show ?thesis by (simp add: sync_lines_def copy_rest_lines)
qed

lemma sync_step_unmatched:
  assumes "type_of (ip ! id_idx s) \<noteq> type_of (ep ! en_idx s)
           \<or> type_of (ip ! id_idx s) \<notin> {heading, numbered_list, bullet_list}"
  shows "sync_step ip ep s =
           s\<lparr>new_en_lines := new_en_lines s @ [original (ep ! en_idx s)],
             id_idx := (if type_of (ip ! id_idx s) = type_of (ep ! en_idx s)
                        then id_idx s + 1 else id_idx s),
             en_idx := en_idx s + 1\<rparr>"
  using assms
  by (cases "type_of (ip ! id_idx s)"; cases "type_of (ep ! en_idx s)")
     (simp_all add: sync_step_def Let_def)

text \<open>
  Claim C3. In a pass through the loop where the source record and the target record
  are not a matched comparable pair (their types differ, or the type they share is not
  heading, numbered list or bullet list), the target's original line is appended
  unchanged, the target cursor advances by one, the source cursor advances by one
  exactly when the two types are equal, and nothing else changes: no change is
  flagged and nothing is printed.
\<close>

theorem unmatched_step_copies_target:
  assumes "id_idx s < length id_parsed" and "en_idx s < length en_parsed"
    and "type_of (id_parsed ! id_idx s) \<noteq> type_of (en_parsed ! en_idx s)
         \<or> type_of (id_parsed ! id_idx s) \<notin> {heading, numbered_list, bullet_list}"
  shows "sync_step id_parsed en_parsed s =
           s\<lparr>new_en_lines := new_en_lines s @ [original (en_parsed ! en_idx s)],
             id_idx := (if type_of (id_parsed ! id_idx s) = type_of (en_parsed ! en_idx s)
                        then id_idx s + 1 else id_idx s),
             en_idx := en_idx s + 1\<rparr>"
  using assms(3) by (rule sync_step_unmatched)

theorem unmatched_step_copies_target_witness:
  "sync_step [Other ''a'', Heading 2 ''T'' ''## T''] [Other ''b'', Other ''c'']
     \<lparr>id_idx = 1, en_idx = 1, new_en_lines = [''b''], changes_made = False, printed = []\<rparr>
   = \<lparr>id_idx = 1, en_idx = 2, new_en_lines = [''b'', ''c''], changes_made = False,
      printed = []\<rparr>
   \<and> sync_step [Other ''a''] [Other ''b''] init_state
   = \<lparr>id_idx = 1, en_idx = 1, new_en_lines = [''b''], changes_made = False, printed = []\<rparr>"
  using unmatched_step_copies_target
          [of "\<lparr>id_idx = 1, en_idx = 1, new_en_lines = [''b''], changes_made = False,
                printed = []\<rparr>"
              "[Other ''a'', Heading 2 ''T'' ''## T'']" "[Other ''b'', Other ''c'']"]
        unmatched_step_copies_target [of init_state "[Other ''a'']" "[Other ''b'']"]
  by (simp add: init_state_def)

text \<open>
  Claim C10. The body fix mode produces has as many lines as the target body: every
  pass through the alignment loop appends one line and moves the target cursor by one;
  once the loop's condition fails (either cursor is at its end), what the two loops
  return is the lines so far followed by the originals of all remaining target
  records, whatever source records remain.
\<close>

theorem fix_keeps_line_count:
  "length (new_en_lines (sync_lines (parse_body id_body) (parse_body en_body)))
     = length (split_lines en_body)
   \<and> length (new_en_lines (sync_lines id_parsed en_parsed)) = length en_parsed
   \<and> length (new_en_lines (sync_step id_parsed en_parsed s)) = length (new_en_lines s) + 1
   \<and> en_idx (sync_step id_parsed en_parsed s) = en_idx s + 1
   \<and> (\<not> (id_idx s < length id_parsed \<and> en_idx s < length en_parsed) \<longrightarrow>
        new_en_lines (copy_rest en_parsed (sync_loop id_parsed en_parsed s))
          = new_en_lines s @ map original (drop (en_idx s) en_parsed))"
  by (simp add: sync_lines_length parse_body_def sync_step_length sync_step_en_idx
        sync_loop_stop copy_rest_lines)

theorem fix_keeps_line_count_witness:
  "length (new_en_lines (sync_lines (parse_body ''## A'') (parse_body (''x'' @ [NL] @ ''y''))))
     = length (split_lines (''x'' @ [NL] @ ''y''))
   \<and> new_en_lines (copy_rest [Other ''b'', Other ''c'']
        (sync_loop [Other ''a''] [Other ''b'', Other ''c'']
           \<lparr>id_idx = 1, en_idx = 1, new_en_lines = [''b''], changes_made = False,
             printed = []\<rparr>))
     = [''b'', ''c'']"
  using fix_keeps_line_count
          [of "''## A''" "''x'' @ [NL] @ ''y''" "[Other ''a'']" "[Other ''b'', Other ''c'']"
              "\<lparr>id_idx = 1, en_idx = 1, new_en_lines = [''b''], changes_made = False,
                printed = []\<rparr>"]
  by simp

section \<open>Aligned pairs are left alone\<close>

lemma aligned_step:
  assumes "id_idx s < length ip" and "en_idx s < length ep"
    and "aligned (drop (id_idx s) ip) (drop (en_idx s) ep)"
  shows "sync_step ip ep s =
           s\<lparr>new_en_lines := new_en_lines s @ [original (ep ! en_idx s)],
             id_idx := (if type_of (ip ! id_idx s) = type_of (ep ! en_idx s)
                        then id_idx s + 1 else id_idx s),
             en_idx := en_idx s + 1\<rparr>
         \<and> aligned (drop (id_idx (sync_step ip ep s)) ip) (drop (en_idx (sync_step ip ep s)) ep)"
proof -
  have di: "drop (id_idx s) ip = ip ! id_idx s # drop (Suc (id_idx s)) ip"
    using assms(1) by (simp add: Cons_nth_drop_Suc)
  have dj: "drop (en_idx s) ep = ep ! en_idx s # drop (Suc (en_idx s)) ep"
    using assms(2) by (simp add: Cons_nth_drop_Suc)
  show ?thesis
    using assms(3) unfolding di dj
    apply (cases "type_of (ip ! id_idx s)"; cases "type_of (ep ! en_idx s)")
    apply (simp_all add: aligned_def sync_step_def Let_def)
    apply (simp_all add: di [symmetric])
    done
qed

lemma sync_loop_aligned:
  "aligned (drop (id_idx s) ip) (drop (en_idx s) ep) \<Longrightarrow> en_idx s \<le> length ep \<Longrightarrow>
   changes_made (sync_loop ip ep s) = changes_made s
   \<and> printed (sync_loop ip ep s) = printed s
   \<and> en_idx s \<le> en_idx (sync_loop ip ep s) \<and> en_idx (sync_loop ip ep s) \<le> length ep
   \<and> new_en_lines (sync_loop ip ep s)
       = new_en_lines s @ map original (take (en_idx (sync_loop ip ep s) - en_idx s) (drop (en_idx s) ep))"
proof (induction ip ep s rule: sync_loop.induct)
  case (1 ip ep s)
  show ?case
  proof (cases "id_idx s < length ip \<and> en_idx s < length ep")
    case True
    let ?t = "sync_step ip ep s"
    have both: "?t = s\<lparr>new_en_lines := new_en_lines s @ [original (ep ! en_idx s)],
             id_idx := (if type_of (ip ! id_idx s) = type_of (ep ! en_idx s)
                        then id_idx s + 1 else id_idx s),
             en_idx := en_idx s + 1\<rparr>
         \<and> aligned (drop (id_idx ?t) ip) (drop (en_idx ?t) ep)"
      by (rule aligned_step) (use True 1(2) in blast)+
    note st = conjunct1 [OF both] and al = conjunct2 [OF both]
    have le: "en_idx ?t \<le> length ep" using True by (simp add: sync_step_en_idx)
    have e: "sync_loop ip ep s = sync_loop ip ep ?t"
      using True by (simp add: sync_loop_continue)
    note ih = 1(1)[OF True al le]
    have c: "changes_made ?t = changes_made s" "printed ?t = printed s"
      "en_idx ?t = Suc (en_idx s)"
      "new_en_lines ?t = new_en_lines s @ [original (ep ! en_idx s)]"
      by (subst st, simp)+
    have dj: "drop (en_idx s) ep = ep ! en_idx s # drop (Suc (en_idx s)) ep"
      using True by (simp add: Cons_nth_drop_Suc)
    let ?n = "en_idx (sync_loop ip ep ?t)"
    from ih have ge: "Suc (en_idx s) \<le> ?n" by (simp add: c)
    then have sub: "?n - en_idx s = Suc (?n - Suc (en_idx s))" by arith
    show ?thesis
      unfolding e using ih ge by (simp add: c dj sub)
  next
    case False
    have e: "sync_loop ip ep s = s"
      using False by (rule sync_loop_stop)
    show ?thesis using 1(3) by (simp add: e)
  qed
qed

lemma sync_lines_aligned:
  assumes "aligned ip ep"
  shows "new_en_lines (sync_lines ip ep) = map original ep
         \<and> changes_made (sync_lines ip ep) = False \<and> printed (sync_lines ip ep) = []"
proof -
  let ?s = "sync_loop ip ep init_state"
  have h: "changes_made ?s = changes_made init_state
   \<and> printed ?s = printed init_state
   \<and> en_idx init_state \<le> en_idx ?s \<and> en_idx ?s \<le> length ep
   \<and> new_en_lines ?s
       = new_en_lines init_state @ map original (take (en_idx ?s - en_idx init_state) (drop (en_idx init_state) ep))"
    by (rule sync_loop_aligned) (simp_all add: init_state_def assms)
  then have l: "new_en_lines ?s = map original (take (en_idx ?s) ep)"
    and c: "changes_made ?s = False" and p: "printed ?s = []"
    by (simp_all add: init_state_def)
  have "new_en_lines (sync_lines ip ep) = map original (take (en_idx ?s) ep) @ map original (drop (en_idx ?s) ep)"
    by (simp add: sync_lines_def copy_rest_lines l)
  also have "\<dots> = map original ep"
    by (simp add: map_append [symmetric] del: map_append)
  finally have 1: "new_en_lines (sync_lines ip ep) = map original ep" .
  have 2: "changes_made (sync_lines ip ep) = False" "printed (sync_lines ip ep) = []"
    by (simp_all add: sync_lines_def copy_rest_eq c p)
  from 1 2 show ?thesis by simp
qed

text \<open>
  On the records of fix mode, which know no fence: when every matched pair of the two
  parsed bodies agrees and both files exist, \<open>sync_file\<close> returns \<open>False\<close>, prints
  nothing and leaves the file system as it was, in dry-run and in apply mode alike.
\<close>

lemma fence_blind_aligned_unchanged:
  assumes "files id_file = Some id_content" and "files en_file = Some en_content"
    and "aligned (parse_body (snd (extract_frontmatter id_content)))
                 (parse_body (snd (extract_frontmatter en_content)))"
  shows "sync_file files id_file en_file dry_run = Inr (False, files, [])
         \<and> new_en_lines (sync_lines (parse_body (snd (extract_frontmatter id_content)))
                                    (parse_body (snd (extract_frontmatter en_content))))
             = split_lines (snd (extract_frontmatter en_content))"
proof -
  note a = sync_lines_aligned [OF assms(3)]
  have o: "map original (parse_body b) = split_lines b" for b
    by (simp add: parse_body_def parse_line_original map_idI)
  obtain id_fm id_body where i: "extract_frontmatter id_content = (id_fm, id_body)"
    by (cases "extract_frontmatter id_content")
  obtain en_fm en_body where e: "extract_frontmatter en_content = (en_fm, en_body)"
    by (cases "extract_frontmatter en_content")
  have 1: "sync_file files id_file en_file dry_run = Inr (False, files, [])"
    using a by (simp add: sync_file_def assms(1,2) i e parse_body_def)
  show ?thesis using 1 a by (simp add: o)
qed

section \<open>Rebuilt lines parse back\<close>

lemma isspace_space: "isspace (CHR '' '')" by (simp add: isspace_def)
lemma not_isspace_hash: "\<not> isspace (CHR ''#'')" by (simp add: isspace_def)
lemma isdigit_not_space: "isdigit c \<Longrightarrow> \<not> isspace c" by (auto simp: isdigit_def isspace_def)
lemma isdigit_not_hash: "isdigit c \<Longrightarrow> c \<noteq> CHR ''#''" by (auto simp: isdigit_def)
lemma not_isdigit_dot: "\<not> isdigit (CHR ''.'')" by (simp add: isdigit_def)
lemma isbullet_not_space: "isbullet c \<Longrightarrow> \<not> isspace c" by (auto simp: isbullet_def isspace_def)
lemma isbullet_not_digit: "isbullet c \<Longrightarrow> \<not> isdigit c" by (auto simp: isbullet_def isdigit_def)
lemma isbullet_not_hash: "isbullet c \<Longrightarrow> c \<noteq> CHR ''#''" by (auto simp: isbullet_def)

lemma takeWhile_replicate_append:
  "P c \<Longrightarrow> takeWhile P (replicate k c @ ys) = replicate k c @ takeWhile P ys"
  by (induction k) auto

lemma dropWhile_replicate_append:
  "P c \<Longrightarrow> dropWhile P (replicate k c @ ys) = dropWhile P ys"
  by (induction k) auto

lemma sep_text_shape:
  assumes "sep_text s = Some t"
  shows "(t \<noteq> [] \<and> \<not> isspace (hd t)) \<or> (\<exists>w. t = [w] \<and> isspace w)"
proof (cases "dropWhile isspace s = []")
  case True
  with assms have ws: "takeWhile isspace s \<noteq> []" and t: "t = [last (takeWhile isspace s)]"
    by (auto simp: sep_text_def Let_def split: if_splits)
  from ws have "last (takeWhile isspace s) \<in> set (takeWhile isspace s)" by simp
  then have "isspace (last (takeWhile isspace s))" by (rule set_takeWhileD [THEN conjunct2])
  with t show ?thesis by simp
next
  case False
  with assms have t: "t = dropWhile isspace s"
    by (auto simp: sep_text_def Let_def split: if_splits)
  from False have "\<not> isspace (hd (dropWhile isspace s))" by (rule hd_dropWhile)
  with t False show ?thesis by simp
qed

lemma sep_text_rebuild:
  assumes "sep_text s = Some t"
  shows "sep_text (CHR '' '' # t) = Some t"
  using sep_text_shape [OF assms]
proof
  assume a: "t \<noteq> [] \<and> \<not> isspace (hd t)"
  then obtain x xs where t: "t = x # xs" by (cases t) auto
  with a have "\<not> isspace x" by simp
  then show ?thesis by (simp add: sep_text_def t isspace_space)
next
  assume "\<exists>w. t = [w] \<and> isspace w"
  then obtain w where "t = [w]" "isspace w" by blast
  then show ?thesis by (simp add: sep_text_def isspace_space)
qed

lemma heading_matchD:
  "heading_match l = Some (k, t) \<Longrightarrow> 1 \<le> k \<and> k \<le> 6 \<and> sep_text (drop k l) = Some t"
  by (auto simp: heading_match_def Let_def split: if_splits option.splits)

lemma numbered_matchD:
  "numbered_match l = Some (i, n, t) \<Longrightarrow>
     n \<noteq> [] \<and> (\<forall>c \<in> set n. isdigit c) \<and> (\<exists>r. sep_text r = Some t)"
  by (auto simp: numbered_match_def Let_def split: if_splits option.splits list.splits
           dest: set_takeWhileD)

lemma bullet_matchD:
  "bullet_match l = Some (i, b, t) \<Longrightarrow> isbullet b \<and> (\<exists>r. sep_text r = Some t)"
  by (auto simp: bullet_match_def Let_def split: if_splits option.splits list.splits)

lemma heading_match_rebuild:
  assumes "1 \<le> k" and "k \<le> 6" and "sep_text r = Some t"
  shows "heading_match (replicate k (CHR ''#'') @ '' '' @ t) = Some (k, t)"
proof -
  have tw: "takeWhile (\<lambda>c. c = CHR ''#'') (replicate k (CHR ''#'') @ '' '' @ t)
              = replicate k (CHR ''#'')"
    by (simp add: takeWhile_replicate_append)
  show ?thesis
    unfolding heading_match_def tw
    using assms(1,2) sep_text_rebuild [OF assms(3)] by simp
qed

lemma no_heading_when_not_hash:
  "l = x # xs \<Longrightarrow> x \<noteq> CHR ''#'' \<Longrightarrow> heading_match l = None"
  by (simp add: heading_match_def)

lemma numbered_match_rebuild:
  assumes "n \<noteq> []" and "\<forall>c \<in> set n. isdigit c" and "sep_text r = Some t"
  shows "numbered_match (replicate m (CHR '' '') @ n @ ''. '' @ t) = Some (m, n, t)"
    and "heading_match (replicate m (CHR '' '') @ n @ ''. '' @ t) = None"
proof -
  obtain d ds where n: "n = d # ds" using assms(1) by (cases n) auto
  have d: "isdigit d" using assms(2) n by simp
  have nsp: "\<not> isspace d" using d by (rule isdigit_not_space)
  have tw: "takeWhile isspace (replicate m (CHR '' '') @ n @ ''. '' @ t) = replicate m (CHR '' '')"
    by (simp add: takeWhile_replicate_append isspace_space n nsp)
  have dw: "dropWhile isspace (replicate m (CHR '' '') @ n @ ''. '' @ t) = n @ ''. '' @ t"
    by (simp add: dropWhile_replicate_append isspace_space n nsp)
  have tn: "takeWhile isdigit (n @ ''. '' @ t) = n"
    using assms(2) by (simp add: not_isdigit_dot)
  have dn: "dropWhile isdigit (n @ ''. '' @ t) = ''. '' @ t"
    using assms(2) by (simp add: not_isdigit_dot)
  show "numbered_match (replicate m (CHR '' '') @ n @ ''. '' @ t) = Some (m, n, t)"
    unfolding numbered_match_def Let_def tw dw tn dn
    using sep_text_rebuild [OF assms(3)] assms(1) by simp
  show "heading_match (replicate m (CHR '' '') @ n @ ''. '' @ t) = None"
  proof (cases m)
    case 0
    then show ?thesis using isdigit_not_hash [OF d] by (simp add: heading_match_def n)
  next
    case (Suc j)
    then show ?thesis by (simp add: heading_match_def)
  qed
qed

lemma bullet_match_rebuild:
  assumes "isbullet b" and "sep_text r = Some t"
  shows "bullet_match (replicate m (CHR '' '') @ [b] @ '' '' @ t) = Some (m, b, t)"
    and "numbered_match (replicate m (CHR '' '') @ [b] @ '' '' @ t) = None"
    and "heading_match (replicate m (CHR '' '') @ [b] @ '' '' @ t) = None"
proof -
  have nsp: "\<not> isspace b" using assms(1) by (rule isbullet_not_space)
  have nd: "\<not> isdigit b" using assms(1) by (rule isbullet_not_digit)
  have tw: "takeWhile isspace (replicate m (CHR '' '') @ [b] @ '' '' @ t) = replicate m (CHR '' '')"
    by (simp add: takeWhile_replicate_append isspace_space nsp)
  have dw: "dropWhile isspace (replicate m (CHR '' '') @ [b] @ '' '' @ t) = b # '' '' @ t"
    by (simp add: dropWhile_replicate_append isspace_space nsp)
  show "bullet_match (replicate m (CHR '' '') @ [b] @ '' '' @ t) = Some (m, b, t)"
    unfolding bullet_match_def Let_def tw dw
    using sep_text_rebuild [OF assms(2)] assms(1) by simp
  show "numbered_match (replicate m (CHR '' '') @ [b] @ '' '' @ t) = None"
    unfolding numbered_match_def Let_def tw dw using nd by simp
  show "heading_match (replicate m (CHR '' '') @ [b] @ '' '' @ t) = None"
  proof (cases m)
    case 0
    then show ?thesis using isbullet_not_hash [OF assms(1)] by (simp add: heading_match_def)
  next
    case (Suc j)
    then show ?thesis by (simp add: heading_match_def)
  qed
qed

lemma parse_line_heading:
  "heading_match l = Some (k, t) \<Longrightarrow> parse_line l = Heading k t l"
  by (simp add: parse_line_def)

lemma parse_line_numbered:
  "heading_match l = None \<Longrightarrow> numbered_match l = Some (i, n, t) \<Longrightarrow>
   parse_line l = NumberedList i n t l"
  by (simp add: parse_line_def)

lemma parse_line_bullet:
  "heading_match l = None \<Longrightarrow> numbered_match l = None \<Longrightarrow> bullet_match l = Some (i, b, t) \<Longrightarrow>
   parse_line l = BulletList i b t l"
  by (simp add: parse_line_def)

lemma parse_line_cases [case_names H N B O]:
  obtains k t where "heading_match l = Some (k, t)" "parse_line l = Heading k t l"
  | i n t where "heading_match l = None" "numbered_match l = Some (i, n, t)"
      "parse_line l = NumberedList i n t l"
  | i b t where "heading_match l = None" "numbered_match l = None"
      "bullet_match l = Some (i, b, t)" "parse_line l = BulletList i b t l"
  | "parse_line l = Other l"
  by (cases "heading_match l"; cases "numbered_match l"; cases "bullet_match l")
     (auto simp: parse_line_def)

text \<open>The line a step appends, for a pair of parsed lines.\<close>

lemma step_line:
  assumes S: "ip ! id_idx s = parse_line a" and T: "ep ! en_idx s = parse_line b"
  shows "let l = last (new_en_lines (sync_step ip ep s)) in
           if type_of (parse_line a) = type_of (parse_line b) \<and> type_of (parse_line b) \<noteq> other
           then parse_line l =
                  (case parse_line b of
                     Heading k t orig \<Rightarrow> Heading (level (parse_line a)) t l
                   | NumberedList i n t orig \<Rightarrow> NumberedList (indent (parse_line a)) n t l
                   | BulletList i c t orig \<Rightarrow> BulletList (indent (parse_line a)) c t l
                   | Other orig \<Rightarrow> Other l)
           else l = b"
proof (cases a rule: parse_line_cases)
  case (H k' t')
  note a = this
  show ?thesis
  proof (cases b rule: parse_line_cases)
    case (H k t)
    have r: "parse_line (replicate k' (CHR ''#'') @ '' '' @ t)
               = Heading k' t (replicate k' (CHR ''#'') @ '' '' @ t)"
      using heading_matchD [OF a(1)] heading_matchD [OF H(1)]
      by (intro parse_line_heading heading_match_rebuild) auto
    show ?thesis
      using r by (simp add: sync_step_def S T a(2) H(2) Let_def)
  qed (simp_all add: sync_step_def S T a(2) Let_def)
next
  case (N i' n' t')
  note a = this
  show ?thesis
  proof (cases b rule: parse_line_cases)
    case (N i n t)
    from numbered_matchD [OF N(2)] obtain r where
      n: "n \<noteq> []" "\<forall>c \<in> set n. isdigit c" "sep_text r = Some t" by blast
    have r: "parse_line (replicate i' (CHR '' '') @ n @ ''. '' @ t)
               = NumberedList i' n t (replicate i' (CHR '' '') @ n @ ''. '' @ t)"
      by (intro parse_line_numbered numbered_match_rebuild [OF n])
    show ?thesis
      using r by (simp add: sync_step_def S T a(3) N(3) Let_def)
  qed (simp_all add: sync_step_def S T a(3) Let_def)
next
  case (B i' b' t')
  note a = this
  show ?thesis
  proof (cases b rule: parse_line_cases)
    case (B i c t)
    from bullet_matchD [OF B(3)] obtain r where
      c: "isbullet c" "sep_text r = Some t" by blast
    have r: "parse_line (replicate i' (CHR '' '') @ [c] @ '' '' @ t)
               = BulletList i' c t (replicate i' (CHR '' '') @ [c] @ '' '' @ t)"
      by (intro parse_line_bullet bullet_match_rebuild [OF c])
    show ?thesis
      using r by (simp add: sync_step_def S T a(4) B(4) Let_def)
  qed (simp_all add: sync_step_def S T a(4) Let_def)
next
  case O
  then show ?thesis
    by (cases b rule: parse_line_cases) (simp_all add: sync_step_def S T Let_def)
qed

lemma step_frame:
  assumes "ip ! id_idx s = parse_line a" and "ep ! en_idx s = parse_line b"
  shows "frame (parse_line (last (new_en_lines (sync_step ip ep s)))) = frame (parse_line b)"
  using step_line [OF assms]
  by (cases "parse_line b") (auto simp: Let_def split: if_splits)


lemma sync_step_append_last:
  "new_en_lines (sync_step ip ep s)
     = new_en_lines s @ [last (new_en_lines (sync_step ip ep s))]"
  by (simp add: sync_step_def Let_def)

lemma sync_loop_frame:
  assumes "ip = map parse_line ils" and "ep = map parse_line els"
    and "en_idx s \<le> length els"
    and "map (frame \<circ> parse_line) (new_en_lines s) = map (frame \<circ> parse_line) (take (en_idx s) els)"
  shows "en_idx (sync_loop ip ep s) \<le> length els
         \<and> map (frame \<circ> parse_line) (new_en_lines (sync_loop ip ep s))
             = map (frame \<circ> parse_line) (take (en_idx (sync_loop ip ep s)) els)"
  using assms
proof (induction ip ep s rule: sync_loop.induct)
  case (1 ip ep s)
  show ?case
  proof (cases "id_idx s < length ip \<and> en_idx s < length ep")
    case True
    let ?t = "sync_step ip ep s"
    have i: "ip ! id_idx s = parse_line (ils ! id_idx s)"
      using True 1(2) by simp
    have j: "ep ! en_idx s = parse_line (els ! en_idx s)"
      using True 1(3) by simp
    have lt: "en_idx s < length els" using True 1(3) by simp
    have f: "frame (parse_line (last (new_en_lines ?t))) = frame (parse_line (els ! en_idx s))"
      using i j by (rule step_frame)
    have n: "en_idx ?t = Suc (en_idx s)" by (simp add: sync_step_en_idx)
    have le: "en_idx ?t \<le> length els" using lt n by simp
    have m: "map (frame \<circ> parse_line) (new_en_lines ?t)
               = map (frame \<circ> parse_line) (take (en_idx ?t) els)"
      by (subst sync_step_append_last) (simp add: n take_Suc_conv_app_nth [OF lt] 1(5) f)
    have e: "sync_loop ip ep s = sync_loop ip ep ?t"
      using True by (simp add: sync_loop_continue)
    show ?thesis
      unfolding e by (rule 1(1) [OF True 1(2) 1(3) le m])
  next
    case False
    have e: "sync_loop ip ep s = s" using False by (rule sync_loop_stop)
    show ?thesis using 1(4,5) by (simp add: e)
  qed
qed

lemma sync_lines_frame:
  "map (frame \<circ> parse_line) (new_en_lines (sync_lines (map parse_line ils) (map parse_line els)))
     = map frame (map parse_line els)"
proof -
  let ?ip = "map parse_line ils" and ?ep = "map parse_line els"
  let ?s = "sync_loop ?ip ?ep init_state"
  have h: "en_idx ?s \<le> length els
         \<and> map (frame \<circ> parse_line) (new_en_lines ?s)
             = map (frame \<circ> parse_line) (take (en_idx ?s) els)"
    by (rule sync_loop_frame) (simp_all add: init_state_def)
  have o: "map original (drop n ?ep) = drop n els" for n
    by (simp add: drop_map [symmetric] parse_line_original map_idI)
  have "map (frame \<circ> parse_line) (new_en_lines (sync_lines ?ip ?ep))
          = map (frame \<circ> parse_line) (take (en_idx ?s) els)
            @ map (frame \<circ> parse_line) (drop (en_idx ?s) els)"
    using h by (simp add: sync_lines_def copy_rest_lines o)
  also have "\<dots> = map (frame \<circ> parse_line) els"
    by (simp add: map_append [symmetric] del: map_append)
  finally show ?thesis by simp
qed

lemma step_shape:
  assumes "ip ! id_idx s = S" and "ep ! en_idx s = T"
    and "type_of S = type_of T" and "type_of T \<noteq> other"
  shows "last (new_en_lines (sync_step ip ep s)) =
           (if agrees (S, T) then original T
            else (case T of
                    Heading k t orig \<Rightarrow> replicate (level S) (CHR ''#'') @ '' '' @ t
                  | NumberedList i n t orig \<Rightarrow>
                      replicate (indent S) (CHR '' '') @ n @ ''. '' @ t
                  | BulletList i c t orig \<Rightarrow>
                      replicate (indent S) (CHR '' '') @ [c] @ '' '' @ t
                  | Other orig \<Rightarrow> orig))"
  using assms by (cases S; cases T) (simp_all add: sync_step_def Let_def)

text \<open>
  Claim C4, as amended. For a matched pair of parsed lines the line the step appends
  is the target's own line when level or indentation agree, and otherwise the line
  rebuilt from the source's level or indentation, the target's number token or bullet
  glyph and the target's text, with one space between marker and text (and spaces as
  indentation). Parsed again, it has the target's text, the target's number or bullet
  and the source's level or indentation. On whole bodies, every line of the output has
  the kind, the number token or bullet glyph and the text of the target line at its
  position: numbers and glyphs are never altered.

  The claim as stated says that only the level or the leading indentation is altered;
  the rebuilt line also replaces the whitespace between marker and text by one space,
  as \<open>separator_is_rewritten\<close> shows.
\<close>

theorem fix_preserves_text_and_marker:
  "map frame (map parse_line
       (new_en_lines (sync_lines (parse_body id_body) (parse_body en_body))))
     = map frame (parse_body en_body)
   \<and> (id_parsed ! id_idx s = parse_line a \<and> en_parsed ! en_idx s = parse_line b
        \<and> type_of (parse_line a) = type_of (parse_line b)
        \<and> type_of (parse_line b) \<noteq> other \<longrightarrow>
      (let l = last (new_en_lines (sync_step id_parsed en_parsed s)) in
         parse_line l =
           (case parse_line b of
              Heading k t orig \<Rightarrow> Heading (level (parse_line a)) t l
            | NumberedList i n t orig \<Rightarrow> NumberedList (indent (parse_line a)) n t l
            | BulletList i c t orig \<Rightarrow> BulletList (indent (parse_line a)) c t l
            | Other orig \<Rightarrow> Other l)
         \<and> l = (if agrees (parse_line a, parse_line b) then b
                else (case parse_line b of
                        Heading k t orig \<Rightarrow>
                          replicate (level (parse_line a)) (CHR ''#'') @ '' '' @ t
                      | NumberedList i n t orig \<Rightarrow>
                          replicate (indent (parse_line a)) (CHR '' '') @ n @ ''. '' @ t
                      | BulletList i c t orig \<Rightarrow>
                          replicate (indent (parse_line a)) (CHR '' '') @ [c] @ '' '' @ t
                      | Other orig \<Rightarrow> orig))))"
proof (intro conjI impI)
  show "map frame (map parse_line
       (new_en_lines (sync_lines (parse_body id_body) (parse_body en_body))))
     = map frame (parse_body en_body)"
    using sync_lines_frame [of "split_lines id_body" "split_lines en_body"]
    by (simp add: parse_body_def)
next
  assume h: "id_parsed ! id_idx s = parse_line a \<and> en_parsed ! en_idx s = parse_line b
        \<and> type_of (parse_line a) = type_of (parse_line b)
        \<and> type_of (parse_line b) \<noteq> other"
  then have S: "id_parsed ! id_idx s = parse_line a" and T: "en_parsed ! en_idx s = parse_line b"
    and m: "type_of (parse_line a) = type_of (parse_line b)" "type_of (parse_line b) \<noteq> other"
    by simp_all
  have 1: "parse_line (last (new_en_lines (sync_step id_parsed en_parsed s))) =
           (case parse_line b of
              Heading k t orig \<Rightarrow> Heading (level (parse_line a)) t
                  (last (new_en_lines (sync_step id_parsed en_parsed s)))
            | NumberedList i n t orig \<Rightarrow> NumberedList (indent (parse_line a)) n t
                  (last (new_en_lines (sync_step id_parsed en_parsed s)))
            | BulletList i c t orig \<Rightarrow> BulletList (indent (parse_line a)) c t
                  (last (new_en_lines (sync_step id_parsed en_parsed s)))
            | Other orig \<Rightarrow> Other (last (new_en_lines (sync_step id_parsed en_parsed s))))"
    using step_line [OF S T] h by (simp add: Let_def)
  have 2: "last (new_en_lines (sync_step id_parsed en_parsed s)) =
            (if agrees (parse_line a, parse_line b) then b
                else (case parse_line b of
                        Heading k t orig \<Rightarrow>
                          replicate (level (parse_line a)) (CHR ''#'') @ '' '' @ t
                      | NumberedList i n t orig \<Rightarrow>
                          replicate (indent (parse_line a)) (CHR '' '') @ n @ ''. '' @ t
                      | BulletList i c t orig \<Rightarrow>
                          replicate (indent (parse_line a)) (CHR '' '') @ [c] @ '' '' @ t
                      | Other orig \<Rightarrow> orig))"
    using step_shape [OF S T m] by (simp add: parse_line_original)
  show "let l = last (new_en_lines (sync_step id_parsed en_parsed s)) in
         parse_line l =
           (case parse_line b of
              Heading k t orig \<Rightarrow> Heading (level (parse_line a)) t l
            | NumberedList i n t orig \<Rightarrow> NumberedList (indent (parse_line a)) n t l
            | BulletList i c t orig \<Rightarrow> BulletList (indent (parse_line a)) c t l
            | Other orig \<Rightarrow> Other l)
         \<and> l = (if agrees (parse_line a, parse_line b) then b
                else (case parse_line b of
                        Heading k t orig \<Rightarrow>
                          replicate (level (parse_line a)) (CHR ''#'') @ '' '' @ t
                      | NumberedList i n t orig \<Rightarrow>
                          replicate (indent (parse_line a)) (CHR '' '') @ n @ ''. '' @ t
                      | BulletList i c t orig \<Rightarrow>
                          replicate (indent (parse_line a)) (CHR '' '') @ [c] @ '' '' @ t
                      | Other orig \<Rightarrow> orig))"
    unfolding Let_def using 1 2 by (intro conjI)
qed

theorem fix_preserves_text_and_marker_witness:
  "parse_line ''  1. Langkah'' = NumberedList 2 ''1'' ''Langkah'' ''  1. Langkah''
   \<and> parse_line ''1.   Step'' = NumberedList 0 ''1'' ''Step'' ''1.   Step''
   \<and> sync_step [NumberedList 2 ''1'' ''Langkah'' ''  1. Langkah'']
        [NumberedList 0 ''1'' ''Step'' ''1.   Step'']
        \<lparr>id_idx = 0, en_idx = 0, new_en_lines = [], changes_made = False, printed = []\<rparr>
     = \<lparr>id_idx = 1, en_idx = 1, new_en_lines = [''  1. Step''], changes_made = True,
        printed = []\<rparr>
   \<and> parse_line ''  1. Step'' = NumberedList 2 ''1'' ''Step'' ''  1. Step''"
proof -
  have a: "parse_line ''  1. Langkah'' = NumberedList 2 ''1'' ''Langkah'' ''  1. Langkah''"
    by code_simp
  have b: "parse_line ''1.   Step'' = NumberedList 0 ''1'' ''Step'' ''1.   Step''"
    by code_simp
  have st: "sync_step [NumberedList 2 ''1'' ''Langkah'' ''  1. Langkah'']
        [NumberedList 0 ''1'' ''Step'' ''1.   Step'']
        \<lparr>id_idx = 0, en_idx = 0, new_en_lines = [], changes_made = False, printed = []\<rparr>
     = \<lparr>id_idx = 1, en_idx = 1, new_en_lines = [''  1. Step''], changes_made = True,
        printed = []\<rparr>"
    by code_simp
  have "parse_line ''  1. Step'' = NumberedList 2 ''1'' ''Step'' ''  1. Step''"
    using fix_preserves_text_and_marker
         [where id_parsed = "[parse_line ''  1. Langkah'']" and s = init_state
            and a = "''  1. Langkah''" and en_parsed = "[parse_line ''1.   Step'']"
            and b = "''1.   Step''" and id_body = "''x''" and en_body = "''y''"]
    by (simp add: a b init_state_def Let_def st)
  with a b st show ?thesis by simp
qed

theorem separator_is_rewritten:
  "last (new_en_lines
      (sync_step [parse_line ''  1. Langkah''] [parse_line ''1.   Step'']
         \<lparr>id_idx = 0, en_idx = 0, new_en_lines = [], changes_made = False, printed = []\<rparr>))
     = ''  1. Step''
   \<and> ''  1. Step'' \<noteq> replicate 2 (CHR '' '') @ dropWhile isspace ''1.   Step''"
  by code_simp

section \<open>Fenced code blocks\<close>

text \<open>
  In report mode the lines between an opening fence and the next fence are all
  \<open>code_block_content\<close>, whatever their shape: \<open>report_fence_opacity\<close>.
\<close>

lemma analyze_lines_append:
  "analyze_lines i b (pre @ rest)
     = analyze_lines i b pre @ analyze_lines (i + length pre) (flag_after b pre) rest"
  by (induction pre arbitrary: i b) simp_all

lemma analyze_lines_inside:
  "list_all (\<lambda>l. \<not> is_fence l) mid \<Longrightarrow>
   analyze_lines i True mid = map (\<lambda>(j, l). CodeBlockContent j l) (zip [i..<i + length mid] mid)"
  by (induction mid arbitrary: i) (simp_all add: upt_rec)

lemma report_fence_opacity:
  assumes "\<not> flag_after False pre" and "is_fence opening"
    and "list_all (\<lambda>l. \<not> is_fence l) mid"
  shows "analyze_lines 0 False (pre @ opening # mid @ rest)
           = analyze_lines 0 False pre
             @ CodeBlockStart (length pre) opening (strip (drop 3 (strip opening)))
             # map (\<lambda>(j, l). CodeBlockContent j l)
                 (zip [Suc (length pre)..<Suc (length pre) + length mid] mid)
             @ analyze_lines (Suc (length pre) + length mid) True rest"
proof -
  have f: "flag_after True mid = True"
    using assms(3) by (induction mid) simp_all
  show ?thesis
    using assms(1,2)
    by (simp add: analyze_lines_append analyze_lines_inside [OF assms(3)] f)
qed

text \<open>
  Claim C2. The claim holds for \<open>analyze_structure\<close> and fails for the parser of fix
  mode: \<open>parse_line\<close> sees one line at a time and keeps no fence flag, so the line
  \<open># comment\<close> between two fences is a heading for it, and against a source heading
  of level 2 the alignment loop rewrites it to \<open>## comment\<close> inside the code block.
\<close>

theorem fix_parser_ignores_fences:
  "analyze_structure (FENCE @ [NL] @ ''# comment'' @ [NL] @ FENCE)
     = [CodeBlockStart 0 FENCE [], CodeBlockContent 1 ''# comment'', CodeBlockEnd 2 FENCE]
   \<and> parse_body (FENCE @ [NL] @ ''# comment'' @ [NL] @ FENCE)
     = [Other FENCE, Heading 1 ''comment'' ''# comment'', Other FENCE]
   \<and> new_en_lines (sync_lines (parse_body ''## Judul'')
                      (parse_body (FENCE @ [NL] @ ''# comment'' @ [NL] @ FENCE)))
     = [FENCE, ''## comment'', FENCE]"
  by code_simp

section \<open>Front matter without a closing delimiter\<close>

text \<open>
  Without a closing delimiter the loop never breaks, \<open>body_start\<close> keeps its initial
  value 1, and the body is every line after the first, while the front matter holds
  the same lines again: \<open>extract_frontmatter_unclosed\<close>.
\<close>

lemma scan_frontmatter_unclosed:
  "list_all (\<lambda>l. strip l \<noteq> ''---'') ls \<Longrightarrow>
   scan_frontmatter i ls frontmatter_lines body_start = (frontmatter_lines @ ls, body_start)"
  by (induction ls arbitrary: i frontmatter_lines) simp_all

lemma extract_frontmatter_unclosed:
  assumes "strip (hd (split_lines content)) = ''---''"
    and "list_all (\<lambda>l. strip l \<noteq> ''---'') (tl (split_lines content))"
  shows "extract_frontmatter content
           = (join_lines (''---'' # tl (split_lines content)),
              join_lines (tl (split_lines content)))"
  using assms(1) scan_frontmatter_unclosed [OF assms(2)]
  by (simp add: extract_frontmatter_def drop_Suc Let_def)

text \<open>
  Claim C6. For a document that opens a front-matter block and never closes it, the
  front matter returned is the whole document, as the claim says, but the body
  returned is not empty: it is everything after the first line.
\<close>

theorem unclosed_frontmatter_body_not_empty:
  "extract_frontmatter (''---'' @ [NL] @ ''title: x'' @ [NL] @ ''# Heading'')
     = (''---'' @ [NL] @ ''title: x'' @ [NL] @ ''# Heading'',
        ''title: x'' @ [NL] @ ''# Heading'')"
  by code_simp

section \<open>Path segments\<close>

text \<open>
  Where \<open>.mdx\<close> occurs in a segment only as its extension, \<open>replace\<close> returns the
  stem, and the segment is mapped as the claim says: \<open>map_part_plain\<close>.
\<close>

lemma map_part_plain:
  assumes "replace_mdx part = stem_mdx part"
  shows "map_part mapping part =
           (case mapping (stem_mdx part) of
              None \<Rightarrow> part
            | Some en_part \<Rightarrow> if endswith part ''.mdx'' then en_part @ ''.mdx'' else en_part)"
  by (simp add: map_part_def assms)

text \<open>
  Claim C9. \<open>part.replace('.mdx', '')\<close> removes every occurrence of \<open>.mdx\<close>, not the
  extension only: the segment \<open>ujian.mdx.mdx\<close> has the stem \<open>ujian.mdx\<close>, which is in
  neither table, yet both scripts map it to \<open>exams.mdx\<close> instead of passing it
  through.
\<close>

theorem inner_mdx_is_removed:
  "stem_mdx ''ujian.mdx.mdx'' = ''ujian.mdx''
   \<and> PATH_MAPPING_translations (stem_mdx ''ujian.mdx.mdx'') = None
   \<and> PATH_MAPPING_fix (stem_mdx ''ujian.mdx.mdx'') = None
   \<and> get_en_path PATH_MAPPING_translations [''menu-siswa'', ''ujian.mdx.mdx'']
       = [''student-menu'', ''exams.mdx'']
   \<and> get_en_path PATH_MAPPING_fix [''menu-siswa'', ''ujian.mdx.mdx'']
       = [''student-menu'', ''exams.mdx'']"
  by code_simp

section \<open>An aligned pair that fix mode rewrites\<close>

text \<open>
  Claim C5. The claim fails where the two parsers differ. The source body below holds
  a fenced block with the line \<open># c\<close> and then the heading \<open>## A\<close>; the target body
  holds a line of text and the heading \<open>## A\<close>. The only structural pair, the two
  headings of level 2, agrees: these are the only headings report mode finds, and it
  finds no list item. Fix mode takes \<open># c\<close>
  for a heading, pairs it with the target's \<open>## A\<close>, rewrites that line to \<open># A\<close>
  and, in apply mode, writes the backup and the new content.
\<close>

theorem aligned_pair_is_rewritten:
  "filter is_heading
       (analyze_structure (FENCE @ [NL] @ ''# c'' @ [NL] @ FENCE @ [NL] @ ''## A''))
     = [EHeading 3 2 ''A'' ''## A'']
   \<and> filter is_heading (analyze_structure (''x'' @ [NL] @ ''## A''))
     = [EHeading 1 2 ''A'' ''## A'']
   \<and> filter is_list
       (analyze_structure (FENCE @ [NL] @ ''# c'' @ [NL] @ FENCE @ [NL] @ ''## A''))
     = []
   \<and> filter is_list (analyze_structure (''x'' @ [NL] @ ''## A'')) = []
   \<and> sync_lines (parse_body (FENCE @ [NL] @ ''# c'' @ [NL] @ FENCE @ [NL] @ ''## A''))
                 (parse_body (''x'' @ [NL] @ ''## A''))
     = \<lparr>id_idx = 2, en_idx = 2, new_en_lines = [''x'', ''# A''], changes_made = True,
        printed = [FixHeading 2 1]\<rparr>
   \<and> map_sum id (\<lambda>(r, files', msgs).
          (r, files' [''en'', ''a.mdx''], files' [''en'', ''a.mdx.bak''], msgs))
        (sync_file
           [[''id'', ''a.mdx''] \<mapsto> FENCE @ [NL] @ ''# c'' @ [NL] @ FENCE @ [NL] @ ''## A'',
            [''en'', ''a.mdx''] \<mapsto> ''x'' @ [NL] @ ''## A'']
           [''id'', ''a.mdx''] [''en'', ''a.mdx''] False)
     = Inr (True, Some ([NL] @ ''x'' @ [NL] @ ''# A''), Some (''x'' @ [NL] @ ''## A''),
            [FixHeading 2 1, Updated ''a.mdx'' ''a.mdx.bak''])"
  by code_simp

section \<open>A missing target file\<close>






section \<open>Level warnings of report mode and heading fixes of fix mode\<close>














end
